theory Spec2Isabelle
  imports Complex_Main "HOL-Library.Multiset"
begin

section \<open>JavaScript numbers\<close>

text \<open>
  Every number of the module is a JavaScript number. The three special values of
  IEEE 754 are kept apart, with the rules JavaScript gives them: a division by zero
  yields an infinity or \<open>NaN\<close>, every comparison with \<open>NaN\<close> is false. On finite
  values the operations are exact (rationals): the rounding of doubles, the overflow of
  a sum or product to an infinity and the sign of zero are not modelled. No statement
  below says that a sum is finite; the statements on the derived figures hold for
  arbitrary totals, infinite ones and \<open>NaN\<close> included.
\<close>

datatype jsnum = Fin rat | PInf | NInf | NaN

fun js_add :: "jsnum \<Rightarrow> jsnum \<Rightarrow> jsnum" where
  "js_add (Fin a) (Fin b) = Fin (a + b)"
| "js_add NaN _ = NaN"
| "js_add _ NaN = NaN"
| "js_add PInf NInf = NaN"
| "js_add NInf PInf = NaN"
| "js_add PInf _ = PInf"
| "js_add _ PInf = PInf"
| "js_add NInf _ = NInf"
| "js_add _ NInf = NInf"

fun js_neg :: "jsnum \<Rightarrow> jsnum" where
  "js_neg (Fin a) = Fin (- a)"
| "js_neg PInf = NInf"
| "js_neg NInf = PInf"
| "js_neg NaN = NaN"

definition js_sub :: "jsnum \<Rightarrow> jsnum \<Rightarrow> jsnum" where
  "js_sub a b = js_add a (js_neg b)"

fun js_mul :: "jsnum \<Rightarrow> jsnum \<Rightarrow> jsnum" where
  "js_mul (Fin a) (Fin b) = Fin (a * b)"
| "js_mul NaN _ = NaN"
| "js_mul _ NaN = NaN"
| "js_mul (Fin a) PInf = (if a = 0 then NaN else if 0 < a then PInf else NInf)"
| "js_mul (Fin a) NInf = (if a = 0 then NaN else if 0 < a then NInf else PInf)"
| "js_mul PInf (Fin b) = (if b = 0 then NaN else if 0 < b then PInf else NInf)"
| "js_mul NInf (Fin b) = (if b = 0 then NaN else if 0 < b then NInf else PInf)"
| "js_mul PInf PInf = PInf"
| "js_mul PInf NInf = NInf"
| "js_mul NInf PInf = NInf"
| "js_mul NInf NInf = PInf"

fun js_div :: "jsnum \<Rightarrow> jsnum \<Rightarrow> jsnum" where
  "js_div (Fin a) (Fin b) =
     (if b = 0 then (if a = 0 then NaN else if 0 < a then PInf else NInf)
      else Fin (a / b))"
| "js_div NaN _ = NaN"
| "js_div _ NaN = NaN"
| "js_div (Fin a) PInf = Fin 0"
| "js_div (Fin a) NInf = Fin 0"
| "js_div PInf (Fin b) = (if 0 \<le> b then PInf else NInf)"
| "js_div NInf (Fin b) = (if 0 \<le> b then NInf else PInf)"
| "js_div PInf PInf = NaN"
| "js_div PInf NInf = NaN"
| "js_div NInf PInf = NaN"
| "js_div NInf NInf = NaN"

text \<open>\<open>a > b\<close> and \<open>a <= b\<close> of JavaScript.\<close>

fun js_gt :: "jsnum \<Rightarrow> jsnum \<Rightarrow> bool" where
  "js_gt (Fin a) (Fin b) = (b < a)"
| "js_gt NaN _ = False"
| "js_gt _ NaN = False"
| "js_gt NInf _ = False"
| "js_gt _ PInf = False"
| "js_gt PInf _ = True"
| "js_gt _ NInf = True"

fun js_le :: "jsnum \<Rightarrow> jsnum \<Rightarrow> bool" where
  "js_le (Fin a) (Fin b) = (a \<le> b)"
| "js_le NaN _ = False"
| "js_le _ NaN = False"
| "js_le NInf _ = True"
| "js_le _ PInf = True"
| "js_le PInf _ = False"
| "js_le _ NInf = False"

fun is_finite :: "jsnum \<Rightarrow> bool" where
  "is_finite (Fin _) = True"
| "is_finite _ = False"

section \<open>The records of the point-of-sale API\<close>

text \<open>
  The API answers with one record where one matches and with an array otherwise; a field
  can also be missing. \<open>Absent\<close> stands for a missing (or otherwise falsy) field.
\<close>

datatype 'a shape = Absent | Single 'a | Collection "'a list"

text \<open>
  The numeric fields travel as decimal strings. A field is \<open>None\<close> when it is missing
  or empty (falsy, so that \<open>field || 0\<close> takes the \<open>0\<close>) and \<open>Some r\<close> when it is a
  non-empty string that \<open>parseFloat\<close> reads as the number \<open>r\<close>; a string that
  it reads as \<open>NaN\<close> or, beyond the range of doubles, as an infinity has no
  counterpart here. The item identifier is the API's numeric key. \<open>completeTime\<close> is the time value of
  \<open>new Date(sale.completeTime)\<close> in milliseconds, taken in the host's local time, which
  is what \<open>getHours\<close> reads.
\<close>

datatype item = ItemRecord (item_description: "string option")

record customer =
  firstName :: "string option"
  lastName :: "string option"

record sale_line =
  itemID :: nat
  unitQuantity :: "rat option"
  calcSubtotal :: "rat option"
  fifoCost :: "rat option"
  avgCost :: "rat option"
  Item :: "item option"

record sale =
  voided :: string
  calcTotal :: "rat option"
  completeTime :: int
  Customer :: "customer option"
  SaleLines :: "sale_line shape option"

text \<open>\<open>parseFloat(v || 0)\<close> on such a field, and \<open>a || b\<close> on two of them.\<close>

definition parseFloat :: "rat option \<Rightarrow> jsnum" where
  "parseFloat v = (case v of None \<Rightarrow> Fin 0 | Some r \<Rightarrow> Fin r)"

definition orElse :: "'a option \<Rightarrow> 'a option \<Rightarrow> 'a option" where
  "orElse a b = (case a of None \<Rightarrow> b | Some x \<Rightarrow> Some x)"

text \<open>\<open>Array.isArray(x) ? x : (x ? [x] : [])\<close>\<close>

fun toArray :: "'a shape \<Rightarrow> 'a list" where
  "toArray (Collection xs) = xs"
| "toArray (Single x) = [x]"
| "toArray Absent = []"

text \<open>
  The lines a loop visits: none unless \<open>sale.SaleLines && sale.SaleLines.SaleLine\<close>.
\<close>

definition saleLines :: "sale \<Rightarrow> sale_line list" where
  "saleLines s = (case SaleLines s of None \<Rightarrow> [] | Some sl \<Rightarrow> toArray sl)"

section \<open>Strings\<close>

text \<open>
  Characters are bytes; \<open>toLowerCase\<close> folds the ASCII letters and \<open>trim\<close> strips the
  ASCII white space. The platform names searched for are ASCII.
\<close>

definition lowerChar :: "char \<Rightarrow> char" where
  "lowerChar c =
     (case map_of (zip ''ABCDEFGHIJKLMNOPQRSTUVWXYZ'' ''abcdefghijklmnopqrstuvwxyz'') c of
        None \<Rightarrow> c
      | Some l \<Rightarrow> l)"

definition toLowerCase :: "string \<Rightarrow> string" where
  "toLowerCase s = map lowerChar s"

definition isSpace :: "char \<Rightarrow> bool" where
  "isSpace c = (c \<in> set [CHR '' '', CHR 0x09, CHR 0x0A, CHR 0x0B, CHR 0x0C, CHR 0x0D])"

definition trim :: "string \<Rightarrow> string" where
  "trim s = rev (dropWhile isSpace (rev (dropWhile isSpace s)))"

fun startsWith :: "string \<Rightarrow> string \<Rightarrow> bool" where
  "startsWith s [] = True"
| "startsWith [] (p # ps) = False"
| "startsWith (c # cs) (p # ps) = (c = p \<and> startsWith cs ps)"

fun strIncludes :: "string \<Rightarrow> string \<Rightarrow> bool" where
  "strIncludes [] p = (p = [])"
| "strIncludes (c # cs) p = (startsWith (c # cs) p \<or> strIncludes cs p)"

section \<open>Channel classification\<close>

text \<open>\<open>name || ''\<close>\<close>

definition nameOr :: "string option \<Rightarrow> string" where
  "nameOr n = (case n of None \<Rightarrow> [] | Some x \<Rightarrow> x)"

definition classifyChannel :: "sale \<Rightarrow> string" where
  "classifyChannel s =
     (case Customer s of
        None \<Rightarrow> ''In-Store''
      | Some c \<Rightarrow>
          (let first = toLowerCase (nameOr (firstName c));
               last = toLowerCase (nameOr (lastName c));
               fullName = trim (first @ '' '' @ last)
           in if strIncludes fullName ''ubereats'' \<or> strIncludes fullName ''uber eats''
                then ''UberEats''
              else if strIncludes fullName ''doordash'' \<or> first = ''doordash''
                then ''DoorDash''
              else if strIncludes fullName ''grubhub'' then ''GrubHub''
              else if strIncludes fullName ''cityhive'' then ''CityHive''
              else ''In-Store''))"

section \<open>Sales metrics\<close>

text \<open>
  The variables the loop of \<open>getSalesMetrics\<close> updates. The three counters (the
  number of transactions, the count of a channel, the count of an hour) start at 0 and
  are only ever incremented: they are natural numbers.
\<close>

record totals =
  totalRevenue :: jsnum
  totalCost :: jsnum
  totalTransactions :: nat
  totalItems :: jsnum
  channels :: "(string \<times> nat) list"
  hourly :: "nat list"

record metrics = totals +
  dateRange :: string
  profit :: jsnum
  profitMargin :: jsnum
  avgSale :: jsnum
  avgItems :: jsnum
  peakHour :: int

definition initialTotals :: totals where
  "initialTotals =
     \<lparr>totalRevenue = Fin 0, totalCost = Fin 0, totalTransactions = 0, totalItems = Fin 0,
      channels = [], hourly = replicate 24 0\<rparr>"

text \<open>\<open>channels[channel] = (channels[channel] || 0) + 1\<close>, keys in creation order.\<close>

fun countChannel :: "(string \<times> nat) list \<Rightarrow> string \<Rightarrow> (string \<times> nat) list" where
  "countChannel [] k = [(k, 1)]"
| "countChannel ((k', c) # rest) k =
     (if k' = k then (k', c + 1) # rest else (k', c) # countChannel rest k)"

text \<open>\<open>getHours\<close>: the hour of the day of a local time value, always below 24.\<close>

definition getHours :: "int \<Rightarrow> nat" where
  "getHours t = nat ((t div 3600000) mod 24)"

definition lineStep :: "('a totals_scheme) \<Rightarrow> sale_line \<Rightarrow> ('a totals_scheme)" where
  "lineStep t line =
     (let qty = parseFloat (unitQuantity line);
          revenue = parseFloat (calcSubtotal line);
          cost = js_mul (parseFloat (orElse (fifoCost line) (avgCost line))) qty
      in t\<lparr>totalRevenue := js_add (totalRevenue t) revenue,
            totalCost := js_add (totalCost t) cost,
            totalItems := js_add (totalItems t) qty\<rparr>)"

definition saleStep :: "totals \<Rightarrow> sale \<Rightarrow> totals" where
  "saleStep t s =
     (if voided s = ''true'' then t
      else if js_le (parseFloat (calcTotal s)) (Fin 0) then t
      else
        (let t1 = t\<lparr>totalTransactions := totalTransactions t + 1\<rparr>;
             t2 = t1\<lparr>channels := countChannel (channels t1) (classifyChannel s)\<rparr>;
             hour = getHours (completeTime s);
             t3 = t2\<lparr>hourly := (hourly t2)[hour := hourly t2 ! hour + 1]\<rparr>
         in foldl lineStep t3 (saleLines s)))"

text \<open>\<open>Math.max(...xs)\<close> (\<open>None\<close> is the \<open>-Infinity\<close> of no argument) and \<open>indexOf\<close>.\<close>

fun mathMax :: "nat list \<Rightarrow> nat option" where
  "mathMax [] = None"
| "mathMax (x # xs) = (case mathMax xs of None \<Rightarrow> Some x | Some m \<Rightarrow> Some (max x m))"

fun indexOf :: "nat list \<Rightarrow> nat \<Rightarrow> int" where
  "indexOf [] v = - 1"
| "indexOf (x # xs) v =
     (if x = v then 0 else (let i = indexOf xs v in if i < 0 then - 1 else i + 1))"

definition peakOf :: "nat list \<Rightarrow> int" where
  "peakOf hs = (case mathMax hs of None \<Rightarrow> - 1 | Some m \<Rightarrow> indexOf hs m)"

text \<open>
  The body of \<open>getSalesMetrics\<close> once \<open>getSales\<close> has answered: the loop over the
  sales, then the derived figures.
\<close>

definition summarise :: "totals \<Rightarrow> string \<Rightarrow> metrics" where
  "summarise t label =
     (let profit = js_sub (totalRevenue t) (totalCost t);
          n = Fin (of_nat (totalTransactions t));
          profitMargin =
            (if js_gt (totalRevenue t) (Fin 0)
             then js_mul (js_div profit (totalRevenue t)) (Fin 100) else Fin 0);
          avgSale = (if js_gt n (Fin 0) then js_div (totalRevenue t) n else Fin 0);
          avgItems = (if js_gt n (Fin 0) then js_div (totalItems t) n else Fin 0)
      in \<lparr>totalRevenue = totalRevenue t, totalCost = totalCost t,
          totalTransactions = totalTransactions t, totalItems = totalItems t,
          channels = channels t, hourly = hourly t,
          dateRange = label, profit = profit, profitMargin = profitMargin,
          avgSale = avgSale, avgItems = avgItems, peakHour = peakOf (hourly t)\<rparr>)"

definition salesMetrics :: "sale list \<Rightarrow> string \<Rightarrow> metrics" where
  "salesMetrics sales label = summarise (foldl saleStep initialTotals sales) label"

section \<open>Top products\<close>

record product =
  itemId :: nat
  description :: string
  quantity :: jsnum
  revenue :: jsnum

text \<open>\<open>line.Item?.description || 'Unknown'\<close>\<close>

definition lineDescription :: "sale_line \<Rightarrow> string" where
  "lineDescription line =
     (case Item line of
        None \<Rightarrow> ''Unknown''
      | Some it \<Rightarrow>
          (case item_description it of
             None \<Rightarrow> ''Unknown''
           | Some d \<Rightarrow> if d = [] then ''Unknown'' else d))"

text \<open>
  \<open>productSales\<close> is an object keyed by item identifier; the list keeps its keys in
  the order of their creation.
\<close>

definition addLine :: "(nat \<times> product) list \<Rightarrow> sale_line \<Rightarrow> (nat \<times> product) list" where
  "addLine ps line =
     (let k = itemID line;
          qty = parseFloat (unitQuantity line);
          lineRevenue = parseFloat (calcSubtotal line);
          ps1 = (if map_of ps k = None
                 then ps @ [(k, \<lparr>itemId = k, description = lineDescription line,
                                  quantity = Fin 0, revenue = Fin 0\<rparr>)]
                 else ps)
      in map (\<lambda>(k', p). if k' = k
                then (k', p\<lparr>quantity := js_add (quantity p) qty,
                             revenue := js_add (revenue p) lineRevenue\<rparr>)
                else (k', p)) ps1)"

definition productStep :: "(nat \<times> product) list \<Rightarrow> sale \<Rightarrow> (nat \<times> product) list" where
  "productStep ps s = (if voided s = ''true'' then ps else foldl addLine ps (saleLines s))"

text \<open>
  \<open>Object.values\<close>: the keys that are array indices (below \<open>2^32 - 1\<close>) come first, in
  ascending order, the other keys follow in the order of their creation.
\<close>

definition objectValues :: "(nat \<times> 'v) list \<Rightarrow> 'v list" where
  "objectValues ps =
     map snd (sort_key fst (filter (\<lambda>kv. fst kv < 4294967295) ps)
              @ filter (\<lambda>kv. \<not> fst kv < 4294967295) ps)"

text \<open>
  \<open>Array.prototype.sort\<close> with a comparison function: stable, an element moves behind
  another one only when the comparison is positive.
\<close>

fun insertBy :: "('a \<Rightarrow> 'a \<Rightarrow> jsnum) \<Rightarrow> 'a \<Rightarrow> 'a list \<Rightarrow> 'a list" where
  "insertBy cmp x [] = [x]"
| "insertBy cmp x (y # ys) =
     (if js_gt (cmp x y) (Fin 0) then y # insertBy cmp x ys else x # y # ys)"

definition jsSort :: "('a \<Rightarrow> 'a \<Rightarrow> jsnum) \<Rightarrow> 'a list \<Rightarrow> 'a list" where
  "jsSort cmp xs = foldr (insertBy cmp) xs []"

definition byRevenue :: "product \<Rightarrow> product \<Rightarrow> jsnum" where
  "byRevenue a b = js_sub (revenue b) (revenue a)"

text \<open>The body of \<open>getTopProducts\<close> once \<open>getSales\<close> has answered.\<close>

definition topProducts :: "sale list \<Rightarrow> nat \<Rightarrow> product list" where
  "topProducts sales limit =
     take limit (jsSort byRevenue (objectValues (foldl productStep [] sales)))"

section \<open>The client\<close>

text \<open>
  The remote API and the clock are the environment: \<open>getDateRange\<close> reads the clock,
  \<open>querySale\<close> is the \<open>Sale\<close> field of the answer to the \<open>Sale.json\<close> request, or the
  error the request threw.
\<close>

datatype error = UpstreamError | TypeError

record date_range =
  rangeStart :: string
  rangeEnd :: string
  dateStr :: string

record pos =
  getDateRange :: "nat \<Rightarrow> nat \<Rightarrow> date_range"
  querySale :: "date_range \<Rightarrow> error + sale shape"

definition getSales :: "pos \<Rightarrow> nat \<Rightarrow> nat \<Rightarrow> error + (sale list \<times> date_range \<times> nat)" where
  "getSales api daysAgo daysSpan =
     (let dr = getDateRange api daysAgo daysSpan
      in case querySale api dr of
           Inl e \<Rightarrow> Inl e
         | Inr data \<Rightarrow> (let sales = toArray data in Inr (sales, dr, length sales)))"

definition getTopProducts :: "pos \<Rightarrow> nat \<Rightarrow> nat \<Rightarrow> nat \<Rightarrow> error + product list" where
  "getTopProducts api daysAgo daysSpan limit =
     (case getSales api daysAgo daysSpan of
        Inl e \<Rightarrow> Inl e
      | Inr (sales, dr, n) \<Rightarrow> Inr (topProducts sales limit))"

definition getSalesMetrics :: "pos \<Rightarrow> nat \<Rightarrow> nat \<Rightarrow> error + metrics" where
  "getSalesMetrics api daysAgo daysSpan =
     (case getSales api daysAgo daysSpan of
        Inl e \<Rightarrow> Inl e
      | Inr (sales, dr, n) \<Rightarrow> Inr (salesMetrics sales (dateStr dr)))"

section \<open>Comparison of two windows\<close>

record comparison =
  current :: metrics
  previous :: metrics
  revenueChange :: jsnum
  transactionChange :: jsnum
  avgSaleChange :: jsnum

text \<open>
  The percentage of change the comparison computes twice, on the revenues and on the
  transaction counts.
\<close>

definition percentChange :: "jsnum \<Rightarrow> jsnum \<Rightarrow> jsnum" where
  "percentChange cur prev =
     (if js_gt prev (Fin 0) then js_mul (js_div (js_sub cur prev) prev) (Fin 100) else Fin 0)"

text \<open>
  The tail of \<open>getComparison\<close>: the record it returns from the two metrics.
\<close>

definition comparisonOf :: "metrics \<Rightarrow> metrics \<Rightarrow> comparison" where
  "comparisonOf c p =
     \<lparr>current = c, previous = p,
      revenueChange = percentChange (totalRevenue c) (totalRevenue p),
      transactionChange =
        percentChange (Fin (of_nat (totalTransactions c))) (Fin (of_nat (totalTransactions p))),
      avgSaleChange = js_sub (avgSale c) (avgSale p)\<rparr>"

text \<open>
  \<open>current\<close> and \<open>previous\<close> are \<open>None\<close> while undefined; reading a field of an
  undefined value throws a \<open>TypeError\<close>, and \<open>previous.totalRevenue\<close> is read first.
\<close>

definition compareMetrics :: "metrics option \<Rightarrow> metrics option \<Rightarrow> error + comparison" where
  "compareMetrics cur prev =
     (case prev of
        None \<Rightarrow> Inl TypeError
      | Some p \<Rightarrow> (case cur of None \<Rightarrow> Inl TypeError | Some c \<Rightarrow> Inr (comparisonOf c p)))"

definition bothWindows :: "pos \<Rightarrow> nat \<Rightarrow> error + comparison" where
  "bothWindows api days =
     (case getSalesMetrics api 0 days of
        Inl e \<Rightarrow> Inl e
      | Inr c \<Rightarrow>
          (case getSalesMetrics api days days of
             Inl e \<Rightarrow> Inl e
           | Inr p \<Rightarrow> compareMetrics (Some c) (Some p)))"

text \<open>The argument is \<open>None\<close> when the caller leaves it out: the default is \<open>'daily'\<close>.\<close>

definition periodOf :: "string option \<Rightarrow> string" where
  "periodOf arg = (case arg of None \<Rightarrow> ''daily'' | Some p \<Rightarrow> p)"

definition getComparison :: "pos \<Rightarrow> string option \<Rightarrow> error + comparison" where
  "getComparison api arg =
     (let period = periodOf arg
      in if period = ''daily'' then bothWindows api 1
         else if period = ''weekly'' then bothWindows api 7
         else if period = ''monthly'' then bothWindows api 30
         else compareMetrics None None)"

section \<open>Notions and inputs of the statements\<close>

definition notVoided :: "sale \<Rightarrow> bool" where
  "notVoided s = (voided s \<noteq> ''true'')"

text \<open>The same API, with every voided sale taken out of its answers.\<close>

definition withoutVoided :: "pos \<Rightarrow> pos" where
  "withoutVoided api =
     api\<lparr>querySale := \<lambda>r. (case querySale api r of
                                 Inl e \<Rightarrow> Inl e
                               | Inr d \<Rightarrow> Inr (Collection (filter notVoided (toArray d))))\<rparr>"

definition positiveTotal :: "sale \<Rightarrow> bool" where
  "positiveTotal s = (\<not> js_le (parseFloat (calcTotal s)) (Fin 0))"

text \<open>A sale that is not voided, of total 0, with one line: 1 unit, subtotal 10, cost 4.\<close>

definition zeroTotalSale :: sale where
  "zeroTotalSale =
     \<lparr>voided = ''false'', calcTotal = Some 0, completeTime = 0, Customer = None,
      SaleLines = Some (Single \<lparr>itemID = 1, unitQuantity = Some 1, calcSubtotal = Some 10,
                               fifoCost = Some 4, avgCost = None, Item = None\<rparr>)\<rparr>"

text \<open>
  Totals as the loop leaves them once the revenue has overflowed: two subtotals of
  \<open>1e308\<close> add up to \<open>Infinity\<close> in doubles.
\<close>

definition overflowedTotals :: totals where
  "overflowedTotals = initialTotals\<lparr>totalRevenue := PInf, totalTransactions := 2\<rparr>"

text \<open>A sale of total 30 with one line: 1 unit, subtotal 30, cost 10.\<close>

definition sale30 :: sale where
  "sale30 =
     \<lparr>voided = ''false'', calcTotal = Some 30, completeTime = 0, Customer = None,
      SaleLines = Some (Single \<lparr>itemID = 1, unitQuantity = Some 1, calcSubtotal = Some 30,
                               fifoCost = Some 10, avgCost = None, Item = None\<rparr>)\<rparr>"

text \<open>What the three counters have in common.\<close>

definition countsAgree :: "'a totals_scheme \<Rightarrow> bool" where
  "countsAgree t =
     (length (hourly t) = 24
      \<and> totalTransactions t = sum_list (map snd (channels t))
      \<and> totalTransactions t = sum_list (hourly t))"

text \<open>A bare sale completed at the start of hour \<open>h\<close>, and four of them over two hours.\<close>

definition saleAt :: "int \<Rightarrow> sale" where
  "saleAt h =
     \<lparr>voided = ''false'', calcTotal = Some 1, completeTime = h * 3600000, Customer = None,
      SaleLines = None\<rparr>"

definition tiedSales :: "sale list" where
  "tiedSales = [saleAt 1, saleAt 0, saleAt 25, saleAt 0]"

text \<open>
  An API for the examples: two sales today, one yesterday, none before; it never fails.
\<close>

definition demoApi :: pos where
  "demoApi =
     \<lparr>getDateRange = (\<lambda>daysAgo daysSpan.
        \<lparr>rangeStart = [], rangeEnd = [],
         dateStr = (if daysAgo = 0 then ''today''
                    else if daysAgo = 1 then ''yesterday'' else ''earlier'')\<rparr>),
      querySale = (\<lambda>dr.
        if dateStr dr = ''today'' then Inr (Collection [sale30, sale30])
        else if dateStr dr = ''yesterday'' then Inr (Single sale30)
        else Inr Absent)\<rparr>"

text \<open>
  The classification as the specification words it: the platform names, in the order
  they are tried, searched in the case-folded first and last name joined by a space.
\<close>

definition platforms :: "(string list \<times> string) list" where
  "platforms =
     [([''ubereats'', ''uber eats''], ''UberEats''),
      ([''doordash''], ''DoorDash''),
      ([''grubhub''], ''GrubHub''),
      ([''cityhive''], ''CityHive'')]"

fun matchPlatform :: "string \<Rightarrow> (string list \<times> string) list \<Rightarrow> string" where
  "matchPlatform n [] = ''In-Store''"
| "matchPlatform n ((pats, channel) # rest) =
     (if list_ex (strIncludes n) pats then channel else matchPlatform n rest)"

definition classifySpec :: "sale \<Rightarrow> string" where
  "classifySpec s =
     (case Customer s of
        None \<Rightarrow> ''In-Store''
      | Some c \<Rightarrow>
          matchPlatform (toLowerCase (nameOr (firstName c) @ '' '' @ nameOr (lastName c)))
            platforms)"

text \<open>A sale whose customer has the given first and last name.\<close>

definition namedSale :: "string \<Rightarrow> string \<Rightarrow> sale" where
  "namedSale f l =
     \<lparr>voided = ''false'', calcTotal = Some 1, completeTime = 0,
      Customer = Some \<lparr>firstName = Some f, lastName = Some l\<rparr>, SaleLines = None\<rparr>"

text \<open>
  The ranking as the specification words it. \<open>soldLines\<close> are the line items of
  every transaction that is not voided, whatever its total; \<open>entryOf\<close> is the entry
  of an item: its quantities and subtotals summed over its lines, its description taken
  from its first line. \<open>ratOf\<close> is the number a field stands for.
\<close>

definition ratOf :: "rat option \<Rightarrow> rat" where
  "ratOf v = (case v of None \<Rightarrow> 0 | Some r \<Rightarrow> r)"

definition soldLines :: "sale list \<Rightarrow> sale_line list" where
  "soldLines sales = concat (map saleLines (filter notVoided sales))"

definition linesOf :: "nat \<Rightarrow> sale_line list \<Rightarrow> sale_line list" where
  "linesOf k ls = filter (\<lambda>l. itemID l = k) ls"

definition quantityOf :: "nat \<Rightarrow> sale_line list \<Rightarrow> rat" where
  "quantityOf k ls = sum_list (map (\<lambda>l. ratOf (unitQuantity l)) (linesOf k ls))"

definition revenueOf :: "nat \<Rightarrow> sale_line list \<Rightarrow> rat" where
  "revenueOf k ls = sum_list (map (\<lambda>l. ratOf (calcSubtotal l)) (linesOf k ls))"

definition entryOf :: "sale_line list \<Rightarrow> nat \<Rightarrow> product" where
  "entryOf ls k =
     \<lparr>itemId = k,
      description = (case linesOf k ls of [] \<Rightarrow> ''Unknown'' | l # _ \<Rightarrow> lineDescription l),
      quantity = Fin (quantityOf k ls),
      revenue = Fin (revenueOf k ls)\<rparr>"

text \<open>The value of a finite number, and the sort key of an entry.\<close>

fun val :: "jsnum \<Rightarrow> rat" where
  "val (Fin r) = r"
| "val _ = 0"

definition negRevenue :: "product \<Rightarrow> rat" where
  "negRevenue p = - val (revenue p)"

text \<open>
  Items A, B and C: A sells for 50, B for 100 and then 20, C for 80. The sale with C
  has total 0 and counts all the same; the voided sale does not count.
\<close>

definition lineOf :: "nat \<Rightarrow> string \<Rightarrow> rat \<Rightarrow> rat \<Rightarrow> sale_line" where
  "lineOf k d q r =
     \<lparr>itemID = k, unitQuantity = Some q, calcSubtotal = Some r, fifoCost = None,
      avgCost = None, Item = Some (ItemRecord (Some d))\<rparr>"

definition abcSales :: "sale list" where
  "abcSales =
     [\<lparr>voided = ''false'', calcTotal = Some 150, completeTime = 0, Customer = None,
       SaleLines = Some (Collection [lineOf 1 ''A'' 1 50, lineOf 2 ''B'' 2 100])\<rparr>,
      \<lparr>voided = ''true'', calcTotal = Some 1000, completeTime = 0, Customer = None,
       SaleLines = Some (Single (lineOf 1 ''A'' 9 1000))\<rparr>,
      \<lparr>voided = ''false'', calcTotal = Some 0, completeTime = 0, Customer = None,
       SaleLines = Some (Collection [lineOf 3 ''C'' 4 80, lineOf 2 ''B'' 1 20])\<rparr>]"

section \<open>Voided transactions\<close>

lemma saleStep_voided: "voided s = ''true'' \<Longrightarrow> saleStep t s = t"
  by (simp add: saleStep_def)

lemma foldl_saleStep_notVoided:
  "foldl saleStep t (filter notVoided sales) = foldl saleStep t sales"
  by (induction sales arbitrary: t) (simp_all add: saleStep_voided notVoided_def)

lemma productStep_voided: "voided s = ''true'' \<Longrightarrow> productStep ps s = ps"
  by (simp add: productStep_def)

lemma foldl_productStep_notVoided:
  "foldl productStep ps (filter notVoided sales) = foldl productStep ps sales"
  by (induction sales arbitrary: ps) (simp_all add: productStep_voided notVoided_def)

lemma salesMetrics_notVoided:
  "salesMetrics (filter notVoided sales) label = salesMetrics sales label"
  by (simp add: salesMetrics_def foldl_saleStep_notVoided)

lemma topProducts_notVoided:
  "topProducts (filter notVoided sales) limit = topProducts sales limit"
  by (simp add: topProducts_def foldl_productStep_notVoided)

lemma getSales_withoutVoided:
  "getSales (withoutVoided api) a b =
     (case getSales api a b of
        Inl e \<Rightarrow> Inl e
      | Inr (sales, dr, n) \<Rightarrow>
          Inr (filter notVoided sales, dr, length (filter notVoided sales)))"
  by (simp add: getSales_def withoutVoided_def Let_def split: sum.splits)

text \<open>
  C2. Taking every voided transaction out of the input leaves the sales metrics and the
  product ranking as they are, on the transaction list itself and through the client:
  a voided transaction adds nothing to revenue, cost, counts, channels, hours or ranks.
\<close>

theorem voided_contribute_nothing:
  "salesMetrics (filter notVoided sales) label = salesMetrics sales label
   \<and> topProducts (filter notVoided sales) limit = topProducts sales limit
   \<and> getSalesMetrics (withoutVoided api) a b = getSalesMetrics api a b
   \<and> getTopProducts (withoutVoided api) a b limit = getTopProducts api a b limit"
  by (simp add: salesMetrics_notVoided topProducts_notVoided getSalesMetrics_def
      getTopProducts_def getSales_withoutVoided split: sum.splits)

section \<open>Transactions of non-positive total\<close>

lemma saleStep_nonpositive: "\<not> positiveTotal s \<Longrightarrow> saleStep t s = t"
  by (simp add: saleStep_def positiveTotal_def)

lemma foldl_saleStep_positiveTotal:
  "foldl saleStep t (filter positiveTotal sales) = foldl saleStep t sales"
  by (induction sales arbitrary: t) (simp_all add: saleStep_nonpositive)

text \<open>
  C1, as the code has it. The test \<open>total <= 0\<close> returns from the callback before the
  loop over the lines, so a transaction of non-positive total adds nothing at all:
  taking all of them out of the input leaves every figure of the metrics as it is,
  revenue, cost and item count included.
\<close>

theorem nonpositive_total_excluded:
  "salesMetrics (filter positiveTotal sales) label = salesMetrics sales label"
  by (simp add: salesMetrics_def foldl_saleStep_positiveTotal)

text \<open>
  C1, as stated, fails: the line of \<open>zeroTotalSale\<close> carries revenue 10, cost 4 and one
  item, and none of them reaches the metrics.
\<close>

theorem nonpositive_total_lines_counterexample:
  "notVoided zeroTotalSale \<and> \<not> positiveTotal zeroTotalSale
   \<and> totalRevenue (foldl lineStep initialTotals (saleLines zeroTotalSale)) = Fin 10
   \<and> totalCost (foldl lineStep initialTotals (saleLines zeroTotalSale)) = Fin 4
   \<and> totalItems (foldl lineStep initialTotals (saleLines zeroTotalSale)) = Fin 1
   \<and> totalRevenue (salesMetrics [zeroTotalSale] ''today'') = Fin 0
   \<and> totalCost (salesMetrics [zeroTotalSale] ''today'') = Fin 0
   \<and> totalItems (salesMetrics [zeroTotalSale] ''today'') = Fin 0"
  by (simp add: notVoided_def positiveTotal_def zeroTotalSale_def parseFloat_def
      saleLines_def lineStep_def initialTotals_def orElse_def salesMetrics_def
      saleStep_def summarise_def Let_def)

section \<open>Finite numbers\<close>

lemma is_finite_iff: "is_finite x \<longleftrightarrow> (\<exists>r. x = Fin r)"
  by (cases x) simp_all

section \<open>Profit margin\<close>

text \<open>
  C3, as the code has it. The profit is the revenue minus the cost. The margin is the
  profit divided by the revenue and multiplied by 100, a percentage, when the revenue
  is positive, and exactly 0 otherwise: on a revenue of 0 it is the number 0, neither
  \<open>NaN\<close> nor infinite, and no division by zero takes place. This holds of the figures
  derived from any totals, so of every transaction list.
\<close>

theorem profitMargin_value:
  "profit (summarise t label) = js_sub (totalRevenue t) (totalCost t)
   \<and> profitMargin (summarise t label)
       = (if js_gt (totalRevenue t) (Fin 0)
          then js_mul (js_div (js_sub (totalRevenue t) (totalCost t)) (totalRevenue t)) (Fin 100)
          else Fin 0)
   \<and> (totalRevenue t = Fin 0 \<longrightarrow> profitMargin (summarise t label) = Fin 0)
   \<and> profit (salesMetrics sales label)
       = js_sub (totalRevenue (salesMetrics sales label)) (totalCost (salesMetrics sales label))
   \<and> profitMargin (salesMetrics sales label)
       = (if js_gt (totalRevenue (salesMetrics sales label)) (Fin 0)
          then js_mul (js_div (profit (salesMetrics sales label))
                 (totalRevenue (salesMetrics sales label))) (Fin 100)
          else Fin 0)
   \<and> (totalRevenue (salesMetrics sales label) = Fin 0
        \<longrightarrow> profitMargin (salesMetrics sales label) = Fin 0
          \<and> is_finite (profitMargin (salesMetrics sales label)))"
  by (simp add: salesMetrics_def summarise_def Let_def)

text \<open>
  No sale and a sale of total 0 give a revenue of 0 and a margin of 0; a revenue of
  30 on a cost of 10 gives 200/3 percent.
\<close>

theorem profitMargin_value_witness:
  "totalRevenue (salesMetrics [] ''today'') = Fin 0
   \<and> profitMargin (salesMetrics [] ''today'') = Fin 0
   \<and> totalRevenue (salesMetrics [zeroTotalSale] ''today'') = Fin 0
   \<and> profitMargin (salesMetrics [zeroTotalSale] ''today'') = Fin 0
   \<and> profitMargin (salesMetrics [sale30] ''today'') = Fin (200 / 3)"
proof -
  have a: "totalRevenue (salesMetrics [] ''today'') = Fin 0"
    by (simp add: salesMetrics_def summarise_def Let_def initialTotals_def)
  have b: "totalRevenue (salesMetrics [zeroTotalSale] ''today'') = Fin 0"
    by (simp add: salesMetrics_def summarise_def Let_def initialTotals_def saleStep_def
        zeroTotalSale_def parseFloat_def)
  have c: "totalRevenue (salesMetrics [sale30] ''today'') = Fin 30"
    "profit (salesMetrics [sale30] ''today'') = Fin 20"
    by (simp_all add: sale30_def salesMetrics_def saleStep_def summarise_def Let_def
        parseFloat_def saleLines_def lineStep_def initialTotals_def orElse_def js_sub_def)
  from profitMargin_value [where sales = "[]" and label = "''today''"] a
  have 1: "profitMargin (salesMetrics [] ''today'') = Fin 0" by blast
  from profitMargin_value [where sales = "[zeroTotalSale]" and label = "''today''"] b
  have 2: "profitMargin (salesMetrics [zeroTotalSale] ''today'') = Fin 0" by blast
  from profitMargin_value [where sales = "[sale30]" and label = "''today''"]
  have "profitMargin (salesMetrics [sale30] ''today'')
       = (if js_gt (totalRevenue (salesMetrics [sale30] ''today'')) (Fin 0)
          then js_mul (js_div (profit (salesMetrics [sale30] ''today''))
                 (totalRevenue (salesMetrics [sale30] ''today''))) (Fin 100)
          else Fin 0)" by blast
  then have 3: "profitMargin (salesMetrics [sale30] ''today'') = Fin (200 / 3)"
    by (simp add: c)
  from a b 1 2 3 show ?thesis by blast
qed

text \<open>
  C3, as stated, fails: on a revenue of 30 and a cost of 10 the profit divided by the
  revenue is \<open>2/3\<close>, and the field holds \<open>200/3\<close>, a hundred times that.
\<close>

theorem profitMargin_ratio_counterexample:
  "js_gt (totalRevenue (salesMetrics [sale30] ''today'')) (Fin 0)
   \<and> totalRevenue (salesMetrics [sale30] ''today'') = Fin 30
   \<and> profit (salesMetrics [sale30] ''today'') = Fin 20
   \<and> js_div (profit (salesMetrics [sale30] ''today''))
        (totalRevenue (salesMetrics [sale30] ''today'')) = Fin (2 / 3)
   \<and> profitMargin (salesMetrics [sale30] ''today'') = Fin (200 / 3)
   \<and> profitMargin (salesMetrics [sale30] ''today'')
       \<noteq> js_div (profit (salesMetrics [sale30] ''today''))
           (totalRevenue (salesMetrics [sale30] ''today''))"
  by (simp add: sale30_def salesMetrics_def saleStep_def summarise_def Let_def
      parseFloat_def saleLines_def lineStep_def initialTotals_def orElse_def js_sub_def)

text \<open>
  The margin is not finite on every input: once the revenue has overflowed, the profit
  is infinite too and their quotient is \<open>NaN\<close>.
\<close>

lemma profitMargin_overflowed:
  "profitMargin (summarise overflowedTotals label) = NaN"
  by (simp add: summarise_def Let_def overflowedTotals_def initialTotals_def js_sub_def)

section \<open>Counters and hours\<close>

lemma replicate_24:
  "replicate 24 (0::nat)
     = [0, 0, 0, 0, 0, 0, 0, 0, 0, 0, 0, 0, 0, 0, 0, 0, 0, 0, 0, 0, 0, 0, 0, 0]"
  by (simp add: eval_nat_numeral)

lemma getHours_less: "getHours t < 24"
  by (simp add: getHours_def nat_less_iff)

lemma sum_countChannel: "sum_list (map snd (countChannel cs k)) = Suc (sum_list (map snd cs))"
  by (induction cs k rule: countChannel.induct) simp_all

lemma sum_list_bump: "i < length xs \<Longrightarrow> sum_list (xs[i := Suc (xs ! i)]) = Suc (sum_list xs)"
  by (simp add: sum_list_update)

lemma lineStep_counts:
  "totalTransactions (lineStep t l) = totalTransactions t"
  "channels (lineStep t l) = channels t"
  "hourly (lineStep t l) = hourly t"
  by (simp_all add: lineStep_def Let_def)

lemma foldl_lineStep_counts:
  "totalTransactions (foldl lineStep t ls) = totalTransactions t
   \<and> channels (foldl lineStep t ls) = channels t
   \<and> hourly (foldl lineStep t ls) = hourly t"
  by (induction ls arbitrary: t) (simp_all add: lineStep_counts)

lemma saleStep_countsAgree: "countsAgree t \<Longrightarrow> countsAgree (saleStep t s)"
  by (simp add: saleStep_def Let_def countsAgree_def foldl_lineStep_counts
      sum_countChannel sum_list_bump getHours_less)

lemma foldl_saleStep_countsAgree: "countsAgree t \<Longrightarrow> countsAgree (foldl saleStep t ss)"
  by (induction ss arbitrary: t) (simp_all add: saleStep_countsAgree)

lemma initialTotals_countsAgree: "countsAgree initialTotals"
  by (simp add: countsAgree_def initialTotals_def)

lemma summarise_counts:
  "totalTransactions (summarise t label) = totalTransactions t"
  "channels (summarise t label) = channels t"
  "hourly (summarise t label) = hourly t"
  "peakHour (summarise t label) = peakOf (hourly t)"
  by (simp_all add: summarise_def Let_def)

text \<open>
  C9. The hourly array keeps its 24 entries, and the transaction count is the sum of the
  channel counts and the sum of the 24 hourly counts: each counted sale adds one to the
  count, to one channel and to one hour, which \<open>getHours\<close> keeps below 24.
\<close>

theorem counts_agree:
  "length (hourly (salesMetrics sales label)) = 24
   \<and> totalTransactions (salesMetrics sales label)
       = sum_list (map snd (channels (salesMetrics sales label)))
   \<and> totalTransactions (salesMetrics sales label)
       = sum_list (hourly (salesMetrics sales label))"
  using foldl_saleStep_countsAgree [OF initialTotals_countsAgree, of sales]
  by (simp add: salesMetrics_def summarise_counts countsAgree_def)

lemma mathMax_Max: "hs \<noteq> [] \<Longrightarrow> mathMax hs = Some (Max (set hs))"
proof (induction hs)
  case Nil
  then show ?case by simp
next
  case (Cons x xs)
  show ?case
  proof (cases "xs = []")
    case True
    then show ?thesis by simp
  next
    case False
    with Cons.IH show ?thesis by (simp add: max.commute)
  qed
qed

lemma indexOf_first:
  "v \<in> set hs \<Longrightarrow>
     \<exists>i<length hs. indexOf hs v = int i \<and> hs ! i = v \<and> (\<forall>j<i. hs ! j \<noteq> v)"
proof (induction hs)
  case Nil
  then show ?case by simp
next
  case (Cons x xs)
  show ?case
  proof (cases "x = v")
    case True
    then show ?thesis by simp
  next
    case False
    with Cons.prems have "v \<in> set xs" by simp
    from Cons.IH [OF this] obtain i where i: "i < length xs" "indexOf xs v = int i"
      "xs ! i = v" "\<forall>j<i. xs ! j \<noteq> v" by blast
    have "\<forall>j<Suc i. (x # xs) ! j \<noteq> v"
      using False i(4) by (auto simp: less_Suc_eq_0_disj)
    with i False show ?thesis
      by (intro exI [of _ "Suc i"]) (simp add: Let_def)
  qed
qed

lemma peakOf_first_max:
  assumes "hs \<noteq> []"
  shows "\<exists>i<length hs. peakOf hs = int i \<and> hs ! i = Max (set hs)
           \<and> (\<forall>j<i. hs ! j < Max (set hs))"
proof -
  have "Max (set hs) \<in> set hs" using assms by (simp add: Max_in)
  from indexOf_first [OF this] obtain i where i: "i < length hs"
    "indexOf hs (Max (set hs)) = int i" "hs ! i = Max (set hs)"
    "\<forall>j<i. hs ! j \<noteq> Max (set hs)" by blast
  have "hs ! j < Max (set hs)" if "j < i" for j
  proof -
    from that i(1) have "hs ! j \<in> set hs" by simp
    then have "hs ! j \<le> Max (set hs)" by simp
    with i(4) that show ?thesis by (simp add: order.strict_iff_order)
  qed
  with i show ?thesis
    by (auto simp: peakOf_def mathMax_Max [OF assms])
qed

text \<open>
  C4. The peak hour is an index below 24 that holds the maximum of the hourly array,
  and every earlier hour holds less: it is the lowest index of the maximum. On the
  counts 5, 5, 0, ..., 0 it is 0.
\<close>

theorem peakHour_first_max:
  "(\<exists>i<24. peakHour (salesMetrics sales label) = int i
       \<and> hourly (salesMetrics sales label) ! i = Max (set (hourly (salesMetrics sales label)))
       \<and> (\<forall>j<i. hourly (salesMetrics sales label) ! j
                  < Max (set (hourly (salesMetrics sales label)))))
   \<and> peakOf [5, 5, 0, 0, 0, 0, 0, 0, 0, 0, 0, 0, 0, 0, 0, 0, 0, 0, 0, 0, 0, 0, 0, 0] = 0"
proof -
  let ?t = "foldl saleStep initialTotals sales"
  have len: "length (hourly ?t) = 24"
    using foldl_saleStep_countsAgree [OF initialTotals_countsAgree, of sales]
    by (simp add: countsAgree_def)
  then have "hourly ?t \<noteq> []" by auto
  from peakOf_first_max [OF this] len have
    "\<exists>i<24. peakOf (hourly ?t) = int i \<and> hourly ?t ! i = Max (set (hourly ?t))
       \<and> (\<forall>j<i. hourly ?t ! j < Max (set (hourly ?t)))" by simp
  moreover have
    "peakOf [5, 5, 0, 0, 0, 0, 0, 0, 0, 0, 0, 0, 0, 0, 0, 0, 0, 0, 0, 0, 0, 0, 0, 0] = 0"
    by (simp add: peakOf_def)
  ultimately show ?thesis
    by (simp add: salesMetrics_def summarise_counts)
qed

lemma tiedSales_hourly:
  "hourly (salesMetrics tiedSales ''today'')
     = [2, 2, 0, 0, 0, 0, 0, 0, 0, 0, 0, 0, 0, 0, 0, 0, 0, 0, 0, 0, 0, 0, 0, 0]"
  by (simp add: tiedSales_def saleAt_def salesMetrics_def summarise_counts saleStep_def
      Let_def parseFloat_def saleLines_def initialTotals_def getHours_def
      classifyChannel_def replicate_24)

text \<open>
  Two sales in hour 0 and two in hour 1: the theorem leaves only hour 0 as the peak.
\<close>

theorem peakHour_first_max_witness:
  "hourly (salesMetrics tiedSales ''today'')
     = [2, 2, 0, 0, 0, 0, 0, 0, 0, 0, 0, 0, 0, 0, 0, 0, 0, 0, 0, 0, 0, 0, 0, 0]
   \<and> peakHour (salesMetrics tiedSales ''today'') = 0"
proof -
  let ?m = "salesMetrics tiedSales ''today''"
  from peakHour_first_max [of tiedSales "''today''"] obtain i where
    i: "peakHour ?m = int i" "\<forall>j<i. hourly ?m ! j < Max (set (hourly ?m))"
    by blast
  have mx: "Max (set (hourly ?m)) = 2" by (simp add: tiedSales_hourly)
  have "i = 0"
  proof (rule ccontr)
    assume "i \<noteq> 0"
    then have "hourly ?m ! 0 < Max (set (hourly ?m))" using i(2) by simp
    then show False by (simp add: mx) (simp add: tiedSales_hourly)
  qed
  with i(1) show ?thesis by (simp add: tiedSales_hourly)
qed

section \<open>Percentage changes\<close>

lemma getComparison_record:
  "getComparison api arg = Inr r \<Longrightarrow> r = comparisonOf (current r) (previous r)"
  by (auto simp: getComparison_def Let_def bothWindows_def compareMetrics_def
      comparisonOf_def split: if_splits sum.splits)

text \<open>
  C5. In the record \<open>getComparison\<close> returns, the revenue change is
  \<open>(current - previous) / previous * 100\<close> when the previous revenue is positive and
  exactly 0 otherwise; the same holds of the transaction counts. On a previous value of
  0 the change is the number 0, neither infinite nor \<open>NaN\<close>: no division by zero
  takes place. This holds of any two metrics.
\<close>

theorem percentage_deltas:
  "revenueChange (comparisonOf c p)
     = (if js_gt (totalRevenue p) (Fin 0)
        then js_mul (js_div (js_sub (totalRevenue c) (totalRevenue p)) (totalRevenue p)) (Fin 100)
        else Fin 0)
   \<and> transactionChange (comparisonOf c p)
     = (if 0 < totalTransactions p
        then Fin ((of_nat (totalTransactions c) - of_nat (totalTransactions p))
                  / of_nat (totalTransactions p) * 100)
        else Fin 0)
   \<and> (totalRevenue p = Fin 0 \<longrightarrow>
        revenueChange (comparisonOf c p) = Fin 0 \<and> is_finite (revenueChange (comparisonOf c p)))
   \<and> (totalTransactions p = 0 \<longrightarrow>
        transactionChange (comparisonOf c p) = Fin 0
        \<and> is_finite (transactionChange (comparisonOf c p)))
   \<and> (getComparison api arg = Inr r \<longrightarrow> r = comparisonOf (current r) (previous r))"
proof -
  have "getComparison api arg = Inr r \<longrightarrow> r = comparisonOf (current r) (previous r)"
    using getComparison_record by blast
  moreover have "revenueChange (comparisonOf c p)
     = (if js_gt (totalRevenue p) (Fin 0)
        then js_mul (js_div (js_sub (totalRevenue c) (totalRevenue p)) (totalRevenue p)) (Fin 100)
        else Fin 0)"
    by (simp add: comparisonOf_def percentChange_def)
  moreover have "transactionChange (comparisonOf c p)
     = (if 0 < totalTransactions p
        then Fin ((of_nat (totalTransactions c) - of_nat (totalTransactions p))
                  / of_nat (totalTransactions p) * 100)
        else Fin 0)"
    by (simp add: comparisonOf_def percentChange_def js_sub_def)
  ultimately show ?thesis by simp
qed

lemma sale30_totals:
  "totalRevenue (salesMetrics [sale30, sale30] ''today'') = Fin 60"
  "totalRevenue (salesMetrics [sale30] ''yesterday'') = Fin 30"
  "totalTransactions (salesMetrics [sale30, sale30] ''today'') = 2"
  "totalTransactions (salesMetrics [sale30] ''yesterday'') = 1"
  by (simp_all add: sale30_def salesMetrics_def saleStep_def summarise_def Let_def
      parseFloat_def saleLines_def lineStep_def initialTotals_def orElse_def)

lemma getComparison_demo:
  "getComparison demoApi None
     = Inr (comparisonOf (salesMetrics [sale30, sale30] ''today'')
              (salesMetrics [sale30] ''yesterday''))"
  by (simp add: getComparison_def periodOf_def bothWindows_def getSalesMetrics_def
      getSales_def Let_def compareMetrics_def demoApi_def)

text \<open>
  From 30 to 60 and from one sale to two: 100 percent each. From nothing to 30, and
  from no sale to one: 0. The first pair is what \<open>getComparison\<close> returns on
  \<open>demoApi\<close>.
\<close>

theorem percentage_deltas_witness:
  "revenueChange (comparisonOf (salesMetrics [sale30, sale30] ''today'')
       (salesMetrics [sale30] ''yesterday'')) = Fin 100
   \<and> transactionChange (comparisonOf (salesMetrics [sale30, sale30] ''today'')
       (salesMetrics [sale30] ''yesterday'')) = Fin 100
   \<and> totalRevenue (salesMetrics [] ''earlier'') = Fin 0
   \<and> totalTransactions (salesMetrics [] ''earlier'') = 0
   \<and> revenueChange (comparisonOf (salesMetrics [sale30] ''yesterday'')
       (salesMetrics [] ''earlier'')) = Fin 0
   \<and> transactionChange (comparisonOf (salesMetrics [sale30] ''yesterday'')
       (salesMetrics [] ''earlier'')) = Fin 0
   \<and> getComparison demoApi None
       = Inr (comparisonOf (salesMetrics [sale30, sale30] ''today'')
                (salesMetrics [sale30] ''yesterday''))"
proof -
  let ?c = "salesMetrics [sale30, sale30] ''today''"
  let ?p = "salesMetrics [sale30] ''yesterday''"
  let ?e = "salesMetrics [] ''earlier''"
  have z: "totalRevenue ?e = Fin 0" "totalTransactions ?e = 0"
    by (simp_all add: salesMetrics_def summarise_def Let_def initialTotals_def)
  from percentage_deltas [of ?c ?p]
  have 1: "revenueChange (comparisonOf ?c ?p) = Fin 100"
    "transactionChange (comparisonOf ?c ?p) = Fin 100"
    by (simp_all add: sale30_totals js_sub_def)
  from percentage_deltas [of ?p ?e] z
  have 2: "revenueChange (comparisonOf ?p ?e) = Fin 0"
    "transactionChange (comparisonOf ?p ?e) = Fin 0"
    by blast+
  from z 1 2 getComparison_demo show ?thesis by blast
qed

section \<open>The shape of the answer\<close>

lemma getSales_demo:
  "getSales demoApi 0 d = Inr ([sale30, sale30], getDateRange demoApi 0 d, 2)"
  "getSales demoApi 1 d = Inr ([sale30], getDateRange demoApi 1 d, 1)"
  "getSales demoApi 7 d = Inr ([], getDateRange demoApi 7 d, 0)"
  by (simp_all add: getSales_def demoApi_def Let_def)

text \<open>
  C8. Whatever the shape of the \<open>Sale\<close> field, \<open>getSales\<close> returns a list with its
  length: a single record becomes the list of that record, an array is kept as it is,
  a missing field becomes the empty list. Only a failed request yields no list.
\<close>

theorem shape_normalised:
  "(querySale api (getDateRange api a b) = Inr (Single x)
      \<longrightarrow> getSales api a b = Inr ([x], getDateRange api a b, 1))
   \<and> (querySale api (getDateRange api a b) = Inr (Collection xs)
      \<longrightarrow> getSales api a b = Inr (xs, getDateRange api a b, length xs))
   \<and> (querySale api (getDateRange api a b) = Inr Absent
      \<longrightarrow> getSales api a b = Inr ([], getDateRange api a b, 0))
   \<and> (querySale api (getDateRange api a b) = Inl e \<longrightarrow> getSales api a b = Inl e)
   \<and> (\<forall>d. querySale api (getDateRange api a b) = Inr d
      \<longrightarrow> (\<exists>sales. getSales api a b = Inr (sales, getDateRange api a b, length sales)))"
  by (simp add: getSales_def Let_def)

text \<open>The three shapes, as \<open>demoApi\<close> answers them.\<close>

theorem shape_normalised_witness:
  "getSales demoApi 1 1 = Inr ([sale30], getDateRange demoApi 1 1, 1)
   \<and> getSales demoApi 0 1 = Inr ([sale30, sale30], getDateRange demoApi 0 1, 2)
   \<and> getSales demoApi 7 7 = Inr ([], getDateRange demoApi 7 7, 0)"
proof -
  have 1: "querySale demoApi (getDateRange demoApi 1 1) = Inr (Single sale30)"
    by (simp add: demoApi_def)
  have 2: "querySale demoApi (getDateRange demoApi 0 1) = Inr (Collection [sale30, sale30])"
    by (simp add: demoApi_def)
  have 3: "querySale demoApi (getDateRange demoApi 7 7) = Inr Absent"
    by (simp add: demoApi_def)
  from shape_normalised [of demoApi 1 1 sale30] 1
    shape_normalised [of demoApi 0 1 _ "[sale30, sale30]"] 2
    shape_normalised [of demoApi 7 7] 3
  show ?thesis by simp
qed

section \<open>The period of a comparison\<close>

lemma compareMetrics_undefined: "compareMetrics None None = Inl TypeError"
  by (simp add: compareMetrics_def)

lemma bothWindows_ok:
  assumes "\<forall>dr. \<exists>d. querySale api dr = Inr d"
  shows "\<exists>cur lc prv lp.
    bothWindows api n = Inr (comparisonOf (salesMetrics cur lc) (salesMetrics prv lp))"
proof -
  from assms obtain d1 where d1: "querySale api (getDateRange api 0 n) = Inr d1" by blast
  from assms obtain d2 where d2: "querySale api (getDateRange api n n) = Inr d2" by blast
  show ?thesis
    by (simp add: bothWindows_def getSalesMetrics_def getSales_def Let_def d1 d2
        compareMetrics_def) blast
qed

text \<open>
  C10. A period other than \<open>'daily'\<close>, \<open>'weekly'\<close> and \<open>'monthly'\<close> leaves both
  metrics undefined, and \<open>getComparison\<close> throws a \<open>TypeError\<close> on reading
  \<open>previous.totalRevenue\<close>. A result is returned for these three periods only, and
  it is returned for them whenever the requests succeed.
\<close>

theorem unknown_period_fails:
  "(periodOf arg \<notin> {''daily'', ''weekly'', ''monthly''}
      \<longrightarrow> getComparison api arg = Inl TypeError)
   \<and> ((\<exists>r. getComparison api arg = Inr r)
      \<longrightarrow> periodOf arg \<in> {''daily'', ''weekly'', ''monthly''})
   \<and> (periodOf arg \<in> {''daily'', ''weekly'', ''monthly''}
        \<and> (\<forall>dr. \<exists>d. querySale api dr = Inr d)
      \<longrightarrow> (\<exists>cur lc prv lp.
            getComparison api arg
              = Inr (comparisonOf (salesMetrics cur lc) (salesMetrics prv lp))))"
proof (intro conjI impI)
  assume "periodOf arg \<notin> {''daily'', ''weekly'', ''monthly''}"
  then show "getComparison api arg = Inl TypeError"
    by (simp add: getComparison_def Let_def compareMetrics_undefined)
next
  assume "\<exists>r. getComparison api arg = Inr r"
  then show "periodOf arg \<in> {''daily'', ''weekly'', ''monthly''}"
    by (auto simp: getComparison_def Let_def compareMetrics_undefined split: if_splits)
next
  assume a: "periodOf arg \<in> {''daily'', ''weekly'', ''monthly''}
        \<and> (\<forall>dr. \<exists>d. querySale api dr = Inr d)"
  then have ok: "\<forall>dr. \<exists>d. querySale api dr = Inr d" by simp
  from a show "\<exists>cur lc prv lp.
            getComparison api arg
              = Inr (comparisonOf (salesMetrics cur lc) (salesMetrics prv lp))"
    using bothWindows_ok [OF ok, of 1] bothWindows_ok [OF ok, of 7]
      bothWindows_ok [OF ok, of 30]
    by (auto simp: getComparison_def Let_def)
qed

text \<open>Two unknown periods (the comparison is case-sensitive), the default and a known one.\<close>

theorem unknown_period_fails_witness:
  "getComparison demoApi (Some ''yearly'') = Inl TypeError
   \<and> getComparison demoApi (Some ''Daily'') = Inl TypeError
   \<and> (\<exists>cur lc prv lp. getComparison demoApi None
         = Inr (comparisonOf (salesMetrics cur lc) (salesMetrics prv lp)))
   \<and> (\<exists>cur lc prv lp. getComparison demoApi (Some ''weekly'')
         = Inr (comparisonOf (salesMetrics cur lc) (salesMetrics prv lp)))"
proof -
  have ok: "\<forall>dr. \<exists>d. querySale demoApi dr = Inr d"
    by (simp add: demoApi_def)
  show ?thesis
    using unknown_period_fails [of "Some ''yearly''" demoApi]
      unknown_period_fails [of "Some ''Daily''" demoApi]
      unknown_period_fails [of None demoApi]
      unknown_period_fails [of "Some ''weekly''" demoApi] ok
    by (simp add: periodOf_def)
qed

section \<open>Channel classification against its specification\<close>

lemma startsWith_iff: "startsWith s p \<longleftrightarrow> (\<exists>t. s = p @ t)"
  by (induction s p rule: startsWith.induct) auto

lemma strIncludes_iff: "strIncludes s p \<longleftrightarrow> (\<exists>a b. s = a @ p @ b)"
proof (induction s)
  case Nil
  then show ?case by simp
next
  case (Cons c cs)
  show ?case
  proof
    assume "strIncludes (c # cs) p"
    then consider "startsWith (c # cs) p" | "strIncludes cs p" by auto
    then show "\<exists>a b. c # cs = a @ p @ b"
    proof cases
      case 1
      then obtain t where "c # cs = p @ t" by (auto simp: startsWith_iff)
      then have "c # cs = [] @ p @ t" by simp
      then show ?thesis by blast
    next
      case 2
      with Cons.IH obtain a b where "cs = a @ p @ b" by blast
      then have "c # cs = (c # a) @ p @ b" by simp
      then show ?thesis by blast
    qed
  next
    assume "\<exists>a b. c # cs = a @ p @ b"
    then obtain a b where ab: "c # cs = a @ p @ b" by blast
    show "strIncludes (c # cs) p"
    proof (cases a)
      case Nil
      with ab have "startsWith (c # cs) p" by (auto simp: startsWith_iff)
      then show ?thesis by simp
    next
      case (Cons x a')
      with ab have "cs = a' @ p @ b" by simp
      with Cons.IH have "strIncludes cs p" by blast
      then show ?thesis by simp
    qed
  qed
qed

lemma strIncludes_rev: "strIncludes (rev s) (rev p) = strIncludes s p"
proof -
  have "(\<exists>a b. rev s = a @ rev p @ b) \<longleftrightarrow> (\<exists>a b. s = a @ p @ b)"
  proof
    assume "\<exists>a b. rev s = a @ rev p @ b"
    then obtain a b where "rev s = a @ rev p @ b" by blast
    then have "rev (rev s) = rev (a @ rev p @ b)" by simp
    then have "s = rev b @ p @ rev a" by simp
    then show "\<exists>a b. s = a @ p @ b" by blast
  next
    assume "\<exists>a b. s = a @ p @ b"
    then obtain a b where "s = a @ p @ b" by blast
    then have "rev s = rev b @ rev p @ rev a" by simp
    then show "\<exists>a b. rev s = a @ rev p @ b" by blast
  qed
  then show ?thesis by (simp add: strIncludes_iff)
qed

lemma strIncludes_dropWhile:
  assumes "p \<noteq> []" and "\<not> isSpace (hd p)"
  shows "strIncludes (dropWhile isSpace s) p = strIncludes s p"
proof (induction s)
  case Nil
  then show ?case by simp
next
  case (Cons c cs)
  show ?case
  proof (cases "isSpace c")
    case True
    from assms obtain h t where p: "p = h # t" "\<not> isSpace h" by (cases p) auto
    with True have "\<not> startsWith (c # cs) p" by auto
    with True Cons.IH show ?thesis by simp
  next
    case False
    then show ?thesis by simp
  qed
qed

lemma strIncludes_trim:
  assumes "p \<noteq> []" and "\<not> isSpace (hd p)" and "\<not> isSpace (last p)"
  shows "strIncludes (trim s) p = strIncludes s p"
proof -
  have r: "rev p \<noteq> []" "\<not> isSpace (hd (rev p))"
    using assms by (simp_all add: hd_rev)
  have "strIncludes (trim s) p
      = strIncludes (dropWhile isSpace (rev (dropWhile isSpace s))) (rev p)"
    unfolding trim_def using strIncludes_rev [of "dropWhile isSpace (rev (dropWhile isSpace s))" "rev p"]
    by simp
  also have "\<dots> = strIncludes (rev (dropWhile isSpace s)) (rev p)"
    by (rule strIncludes_dropWhile [OF r])
  also have "\<dots> = strIncludes (dropWhile isSpace s) p"
    by (rule strIncludes_rev)
  also have "\<dots> = strIncludes s p"
    by (rule strIncludes_dropWhile [OF assms(1,2)])
  finally show ?thesis .
qed

lemma trim_platform:
  "strIncludes (trim s) ''ubereats'' = strIncludes s ''ubereats''"
  "strIncludes (trim s) ''uber eats'' = strIncludes s ''uber eats''"
  "strIncludes (trim s) ''doordash'' = strIncludes s ''doordash''"
  "strIncludes (trim s) ''grubhub'' = strIncludes s ''grubhub''"
  "strIncludes (trim s) ''cityhive'' = strIncludes s ''cityhive''"
  by (simp_all add: strIncludes_trim isSpace_def)

lemma toLowerCase_name:
  "toLowerCase (f @ CHR '' '' # l) = toLowerCase f @ CHR '' '' # toLowerCase l"
  by (simp add: toLowerCase_def lowerChar_def)

lemma first_doordash: "strIncludes (''doordash'' @ rest) ''doordash''"
  unfolding strIncludes_iff by (rule exI [of _ "[]"]) auto

lemma classifyChannel_spec: "classifyChannel s = classifySpec s"
proof (cases "Customer s")
  case None
  then show ?thesis by (simp add: classifyChannel_def classifySpec_def)
next
  case (Some c)
  define lf where "lf = toLowerCase (nameOr (firstName c))"
  define ll where "ll = toLowerCase (nameOr (lastName c))"
  define n where "n = lf @ CHR '' '' # ll"
  have "lf = ''doordash'' \<Longrightarrow> strIncludes n ''doordash''"
    using first_doordash [of "CHR '' '' # ll"] by (simp add: n_def)
  then have e: "(strIncludes n ''doordash'' \<or> lf = ''doordash'') = strIncludes n ''doordash''"
    by blast
  have A: "classifyChannel s =
    (if strIncludes n ''ubereats'' \<or> strIncludes n ''uber eats'' then ''UberEats''
     else if strIncludes n ''doordash'' then ''DoorDash''
     else if strIncludes n ''grubhub'' then ''GrubHub''
     else if strIncludes n ''cityhive'' then ''CityHive''
     else ''In-Store'')"
    using Some e
    by (simp add: classifyChannel_def Let_def trim_platform lf_def ll_def n_def)
  have B: "classifySpec s =
    (if strIncludes n ''ubereats'' \<or> strIncludes n ''uber eats'' then ''UberEats''
     else if strIncludes n ''doordash'' then ''DoorDash''
     else if strIncludes n ''grubhub'' then ''GrubHub''
     else if strIncludes n ''cityhive'' then ''CityHive''
     else ''In-Store'')"
    using Some
    by (simp add: classifySpec_def platforms_def toLowerCase_name lf_def ll_def n_def)
  from A B show ?thesis by simp
qed

text \<open>
  C6. \<open>classifyChannel\<close> is the classification of the specification: in-store
  without a customer, otherwise the first platform of the list one of whose names is a
  substring of the case-folded full name (first name, a space, last name), and in-store
  when there is none. \<open>strIncludes\<close> is the substring test. The trimming of the
  full name and the extra test on the first name change nothing. Three names are
  evaluated, "DoorDash Orders" among them.
\<close>

theorem classifyChannel_policy:
  "classifyChannel s = classifySpec s
   \<and> (Customer s = None \<longrightarrow> classifyChannel s = ''In-Store'')
   \<and> (strIncludes n p \<longleftrightarrow> (\<exists>a b. n = a @ p @ b))
   \<and> classifyChannel (namedSale ''DoorDash'' ''Orders'') = ''DoorDash''
   \<and> classifyChannel (namedSale ''Uber'' ''EATS'') = ''UberEats''
   \<and> classifyChannel (namedSale ''Jane'' ''Doe'') = ''In-Store''"
proof (intro conjI)
  show "classifyChannel s = classifySpec s"
    by (rule classifyChannel_spec)
  show "Customer s = None \<longrightarrow> classifyChannel s = ''In-Store''"
    by (simp add: classifyChannel_def)
  show "strIncludes n p \<longleftrightarrow> (\<exists>a b. n = a @ p @ b)"
    by (rule strIncludes_iff)
  show "classifyChannel (namedSale ''DoorDash'' ''Orders'') = ''DoorDash''"
    "classifyChannel (namedSale ''Uber'' ''EATS'') = ''UberEats''"
    "classifyChannel (namedSale ''Jane'' ''Doe'') = ''In-Store''"
    by (simp_all add: classifyChannel_def namedSale_def toLowerCase_def lowerChar_def
        trim_def isSpace_def nameOr_def)
qed

text \<open>A sale without customer, and a courier of a listed platform.\<close>

theorem classifyChannel_policy_witness:
  "Customer zeroTotalSale = None \<and> classifyChannel zeroTotalSale = ''In-Store''
   \<and> classifySpec (namedSale ''GrubHub'' ''Courier'') = ''GrubHub''
   \<and> classifyChannel (namedSale ''GrubHub'' ''Courier'') = ''GrubHub''"
proof -
  have c: "Customer zeroTotalSale = None" by (simp add: zeroTotalSale_def)
  have g: "classifySpec (namedSale ''GrubHub'' ''Courier'') = ''GrubHub''"
    by (simp add: classifySpec_def namedSale_def toLowerCase_def lowerChar_def
        platforms_def nameOr_def)
  from classifyChannel_policy [of zeroTotalSale] c
  have 1: "classifyChannel zeroTotalSale = ''In-Store''" by blast
  from classifyChannel_policy [of "namedSale ''GrubHub'' ''Courier''"]
  have "classifyChannel (namedSale ''GrubHub'' ''Courier'')
      = classifySpec (namedSale ''GrubHub'' ''Courier'')" by blast
  with g have 2: "classifyChannel (namedSale ''GrubHub'' ''Courier'') = ''GrubHub''"
    by simp
  from c g 1 2 show ?thesis by blast
qed

section \<open>The product ranking\<close>

lemma parseFloat_ratOf: "parseFloat v = Fin (ratOf v)"
  by (simp add: parseFloat_def ratOf_def split: option.splits)

lemma foldl_productStep_soldLines:
  "foldl productStep ps sales = foldl addLine ps (soldLines sales)"
proof (induction sales arbitrary: ps)
  case Nil
  then show ?case by (simp add: soldLines_def)
next
  case (Cons s sales)
  then show ?case
    by (simp add: soldLines_def productStep_def notVoided_def)
qed

lemma linesOf_snoc:
  "linesOf k (ls @ [l]) = (if itemID l = k then linesOf k ls @ [l] else linesOf k ls)"
  by (simp add: linesOf_def)

lemma linesOf_empty: "k \<notin> itemID ` set ls \<Longrightarrow> linesOf k ls = []"
  by (auto simp: linesOf_def filter_empty_conv)

lemma linesOf_nonempty: "k \<in> itemID ` set ls \<Longrightarrow> linesOf k ls \<noteq> []"
  by (auto simp: linesOf_def filter_empty_conv)

lemma entryOf_snoc_other: "itemID l \<noteq> k \<Longrightarrow> entryOf (ls @ [l]) k = entryOf ls k"
  by (simp add: entryOf_def quantityOf_def revenueOf_def linesOf_snoc)

lemma entryOf_snoc_new:
  assumes "itemID l \<notin> itemID ` set ls"
  shows "entryOf (ls @ [l]) (itemID l) =
    \<lparr>itemId = itemID l, description = lineDescription l,
     quantity = js_add (Fin 0) (parseFloat (unitQuantity l)),
     revenue = js_add (Fin 0) (parseFloat (calcSubtotal l))\<rparr>"
  using linesOf_empty [OF assms]
  by (simp add: entryOf_def quantityOf_def revenueOf_def linesOf_snoc parseFloat_ratOf)

lemma entryOf_snoc_old:
  assumes "itemID l \<in> itemID ` set ls"
  shows "entryOf (ls @ [l]) (itemID l) =
    (entryOf ls (itemID l))
      \<lparr>quantity := js_add (quantity (entryOf ls (itemID l))) (parseFloat (unitQuantity l)),
       revenue := js_add (revenue (entryOf ls (itemID l))) (parseFloat (calcSubtotal l))\<rparr>"
proof -
  from linesOf_nonempty [OF assms] obtain x xs where "linesOf (itemID l) ls = x # xs"
    by (cases "linesOf (itemID l) ls") auto
  then show ?thesis
    by (simp add: entryOf_def quantityOf_def revenueOf_def linesOf_snoc parseFloat_ratOf)
qed

lemma map_of_entries: "map_of (map (\<lambda>k. (k, f k)) ks) k = None \<longleftrightarrow> k \<notin> set ks"
  by (induction ks) auto

lemma addLine_entries:
  assumes "distinct ks" and "set ks = itemID ` set ls"
  shows "addLine (map (\<lambda>k. (k, entryOf ls k)) ks) l =
    map (\<lambda>k. (k, entryOf (ls @ [l]) k)) (if itemID l \<in> set ks then ks else ks @ [itemID l])"
proof (cases "itemID l \<in> set ks")
  case True
  then have old: "itemID l \<in> itemID ` set ls" using assms(2) by simp
  show ?thesis
    using True
    by (auto simp: addLine_def Let_def map_of_entries entryOf_snoc_old [OF old]
        entryOf_snoc_other)
next
  case False
  then have new: "itemID l \<notin> itemID ` set ls" using assms(2) by simp
  show ?thesis
    using False
    by (auto simp: addLine_def Let_def map_of_entries entryOf_snoc_new [OF new]
        entryOf_snoc_other)
qed

lemma foldl_addLine_entries:
  "\<exists>ks. distinct ks \<and> set ks = itemID ` set ls
     \<and> foldl addLine [] ls = map (\<lambda>k. (k, entryOf ls k)) ks"
proof (induction ls rule: rev_induct)
  case Nil
  then show ?case by simp
next
  case (snoc l ls)
  then obtain ks where ks: "distinct ks" "set ks = itemID ` set ls"
    "foldl addLine [] ls = map (\<lambda>k. (k, entryOf ls k)) ks" by blast
  let ?ks = "if itemID l \<in> set ks then ks else ks @ [itemID l]"
  have "distinct ?ks" using ks(1) by simp
  moreover have "set ?ks = itemID ` set (ls @ [l])" using ks(2) by auto
  moreover have "foldl addLine [] (ls @ [l]) = map (\<lambda>k. (k, entryOf (ls @ [l]) k)) ?ks"
    using addLine_entries [OF ks(1,2)] ks(3) by simp
  ultimately show ?case by blast
qed

lemma insertBy_insort:
  assumes "is_finite (revenue x)" and "\<forall>y\<in>set ys. is_finite (revenue y)"
  shows "insertBy byRevenue x ys = insort_key negRevenue x ys"
  using assms
proof (induction ys)
  case Nil
  then show ?case by simp
next
  case (Cons y ys)
  from Cons.prems obtain rx ry where r: "revenue x = Fin rx" "revenue y = Fin ry"
    by (auto simp: is_finite_iff)
  with Cons show ?case
    by (auto simp: byRevenue_def js_sub_def negRevenue_def)
qed

lemma jsSort_sort_key:
  "\<forall>x\<in>set xs. is_finite (revenue x) \<Longrightarrow> jsSort byRevenue xs = sort_key negRevenue xs"
proof (induction xs)
  case Nil
  then show ?case by (simp add: jsSort_def)
next
  case (Cons x xs)
  then have IH: "jsSort byRevenue xs = sort_key negRevenue xs" by simp
  have "\<forall>y\<in>set (sort_key negRevenue xs). is_finite (revenue y)"
    using Cons.prems by simp
  with Cons.prems IH show ?case
    using insertBy_insort [of x "sort_key negRevenue xs"]
    by (simp add: jsSort_def)
qed

lemma mset_partition_sorted:
  "mset (sort_key f (filter P ps) @ filter (\<lambda>x. \<not> P x) ps) = mset ps"
proof -
  have "mset (sort_key f (filter P ps) @ filter (\<lambda>x. \<not> P x) ps)
      = filter_mset P (mset ps) + filter_mset (\<lambda>x. \<not> P x) (mset ps)"
    by (simp only: mset_append mset_sort mset_filter)
  also have "\<dots> = mset ps"
    by (rule multiset_partition [symmetric])
  finally show ?thesis .
qed

lemma mset_objectValues: "mset (objectValues ps) = mset (map snd ps)"
  unfolding objectValues_def mset_map
  by (simp only: mset_partition_sorted)

text \<open>The list that is sliced: one entry per item sold, best revenue first.\<close>

lemma entryOf_itemId: "map (entryOf ls) (map itemId xs) = xs" if "set xs \<subseteq> range (entryOf ls)"
  using that by (induction xs) (auto simp: entryOf_def)

lemma ranked_entries:
  "\<exists>ks. distinct ks \<and> set ks = itemID ` set (soldLines sales)
     \<and> sorted (map negRevenue (map (entryOf (soldLines sales)) ks))
     \<and> topProducts sales limit = take limit (map (entryOf (soldLines sales)) ks)"
proof -
  let ?ls = "soldLines sales"
  from foldl_addLine_entries [of ?ls] obtain ks0 where ks0: "distinct ks0"
    "set ks0 = itemID ` set ?ls"
    "foldl addLine [] ?ls = map (\<lambda>k. (k, entryOf ?ls k)) ks0" by blast
  let ?vals = "objectValues (foldl productStep [] sales)"
  have m: "mset ?vals = mset (map (entryOf ?ls) ks0)"
    by (simp add: mset_objectValues foldl_productStep_soldLines ks0(3) comp_def)
  have sv: "set ?vals = entryOf ?ls ` set ks0"
    using mset_eq_setD [OF m] by simp
  then have fin: "\<forall>x\<in>set ?vals. is_finite (revenue x)"
    by (auto simp: entryOf_def)
  let ?sorted = "sort_key negRevenue ?vals"
  have top: "topProducts sales limit = take limit ?sorted"
    by (simp add: topProducts_def jsSort_sort_key [OF fin])
  have ms: "mset ?sorted = mset (map (entryOf ?ls) ks0)" using m by simp
  have st: "set ?sorted \<subseteq> range (entryOf ?ls)"
    using sv by auto
  let ?ks = "map itemId ?sorted"
  have e: "map (entryOf ?ls) ?ks = ?sorted"
    by (rule entryOf_itemId [OF st])
  have k0: "map itemId (map (entryOf ?ls) ks0) = ks0"
    by (simp add: entryOf_def comp_def)
  from ms have "image_mset itemId (mset ?sorted) = image_mset itemId (mset (map (entryOf ?ls) ks0))"
    by (rule arg_cong)
  then have "mset ?ks = mset (map itemId (map (entryOf ?ls) ks0))"
    by (simp only: mset_map)
  then have mk: "mset ?ks = mset ks0" by (simp only: k0)
  have "distinct ?ks"
    using mset_eq_imp_distinct_iff [OF mk] ks0(1) by blast
  moreover have "set ?ks = itemID ` set ?ls"
    using mset_eq_setD [OF mk] ks0(2) by blast
  moreover have "sorted (map negRevenue (map (entryOf ?ls) ?ks))"
    unfolding e by simp
  moreover have "topProducts sales limit = take limit (map (entryOf ?ls) ?ks)"
    unfolding e by (rule top)
  ultimately show ?thesis by blast
qed

lemma revenue_entryOf: "revenue (entryOf ls k) = Fin (revenueOf k ls)"
  and itemId_entryOf: "itemId (entryOf ls k) = k"
  and negRevenue_entryOf: "negRevenue (entryOf ls k) = - revenueOf k ls"
  by (simp_all add: entryOf_def negRevenue_def)

lemma abcSales_top:
  "topProducts abcSales 2 =
     [\<lparr>itemId = 2, description = ''B'', quantity = Fin 3, revenue = Fin 120\<rparr>,
      \<lparr>itemId = 3, description = ''C'', quantity = Fin 4, revenue = Fin 80\<rparr>]"
  by (simp add: topProducts_def abcSales_def lineOf_def productStep_def saleLines_def
      addLine_def parseFloat_def objectValues_def jsSort_def byRevenue_def js_sub_def
      lineDescription_def)

text \<open>
  C7. \<open>getTopProducts\<close> returns \<open>min limit n\<close> entries, \<open>n\<close> the number of items
  sold, so at most \<open>limit\<close>; they are sorted by revenue, highest first, and are of
  distinct items; each is the entry of its item, accumulated over the line items of every
  transaction that is not voided (a transaction of non-positive total included); and
  an item that is left out has no more revenue than any entry returned, the list being
  full. On A (50), B (120) and C (80) with a limit of 2 the result is B, C.
\<close>

theorem topProducts_ranking:
  "length (topProducts sales limit) = min limit (card (itemID ` set (soldLines sales)))
   \<and> length (topProducts sales limit) \<le> limit
   \<and> sorted_wrt (\<lambda>a b. js_le (revenue b) (revenue a)) (topProducts sales limit)
   \<and> distinct (map itemId (topProducts sales limit))
   \<and> (\<forall>p \<in> set (topProducts sales limit).
         itemId p \<in> itemID ` set (soldLines sales)
         \<and> p = entryOf (soldLines sales) (itemId p))
   \<and> (\<forall>k \<in> itemID ` set (soldLines sales).
         k \<in> itemId ` set (topProducts sales limit)
         \<or> (length (topProducts sales limit) = limit
            \<and> (\<forall>p \<in> set (topProducts sales limit).
                  revenueOf k (soldLines sales) \<le> revenueOf (itemId p) (soldLines sales))))
   \<and> topProducts abcSales 2 =
       [\<lparr>itemId = 2, description = ''B'', quantity = Fin 3, revenue = Fin 120\<rparr>,
        \<lparr>itemId = 3, description = ''C'', quantity = Fin 4, revenue = Fin 80\<rparr>]"
proof -
  let ?ls = "soldLines sales"
  let ?R = "topProducts sales limit"
  from ranked_entries [of sales limit] obtain ks where ks: "distinct ks"
    "set ks = itemID ` set ?ls"
    "sorted (map negRevenue (map (entryOf ?ls) ks))"
    "?R = take limit (map (entryOf ?ls) ks)" by blast
  have ids: "map itemId ?R = take limit ks"
    by (simp add: ks(4) take_map [symmetric] itemId_entryOf comp_def)
  have len: "length ?R = min limit (length ks)"
    by (simp add: ks(4) min.commute)
  have card: "length ks = card (itemID ` set ?ls)"
    using distinct_card [OF ks(1)] ks(2) by simp
  have srt: "sorted_wrt (\<lambda>i j. revenueOf j ?ls \<le> revenueOf i ?ls) ks"
    using ks(3) by (simp add: sorted_map sorted_wrt_map negRevenue_entryOf)
  have 1: "length ?R = min limit (card (itemID ` set ?ls))"
    using len card by simp
  have 2: "length ?R \<le> limit" using len by simp
  have "sorted_wrt (\<lambda>i j. revenueOf j ?ls \<le> revenueOf i ?ls) (take limit ks)"
    using srt by (rule sorted_wrt_take)
  then have 3: "sorted_wrt (\<lambda>a b. js_le (revenue b) (revenue a)) ?R"
    by (simp add: ks(4) take_map sorted_wrt_map revenue_entryOf)
  have 4: "distinct (map itemId ?R)"
    using ks(1) by (simp add: ids)
  have 5: "\<forall>p \<in> set ?R. itemId p \<in> itemID ` set ?ls \<and> p = entryOf ?ls (itemId p)"
  proof
    fix p assume "p \<in> set ?R"
    then have "p \<in> set (map (entryOf ?ls) ks)"
      unfolding ks(4) by (rule in_set_takeD)
    then obtain k where "k \<in> set ks" "p = entryOf ?ls k" by auto
    then show "itemId p \<in> itemID ` set ?ls \<and> p = entryOf ?ls (itemId p)"
      using ks(2) by (simp add: itemId_entryOf)
  qed
  have 6: "\<forall>k \<in> itemID ` set ?ls. k \<in> itemId ` set ?R
      \<or> (length ?R = limit
         \<and> (\<forall>p \<in> set ?R. revenueOf k ?ls \<le> revenueOf (itemId p) ?ls))"
  proof
    fix k assume "k \<in> itemID ` set ?ls"
    then have "k \<in> set ks" using ks(2) by simp
    then obtain i where i: "i < length ks" "ks ! i = k"
      by (auto simp: in_set_conv_nth)
    show "k \<in> itemId ` set ?R
      \<or> (length ?R = limit
         \<and> (\<forall>p \<in> set ?R. revenueOf k ?ls \<le> revenueOf (itemId p) ?ls))"
    proof (cases "i < limit")
      case True
      with i have "k \<in> set (take limit ks)"
        by (auto simp: in_set_conv_nth intro!: exI [of _ i])
      then have "k \<in> set (map itemId ?R)" by (simp only: ids)
      then show ?thesis by auto
    next
      case False
      with i(1) have full: "length ?R = limit" using len by simp
      have "revenueOf k ?ls \<le> revenueOf (itemId p) ?ls" if "p \<in> set ?R" for p
      proof -
        from that have "itemId p \<in> set (map itemId ?R)" by simp
        then have "itemId p \<in> set (take limit ks)" by (simp only: ids)
        then obtain j where j: "j < limit" "j < length ks" "ks ! j = itemId p"
          by (auto simp: in_set_conv_nth)
        with False have "j < i" by simp
        from sorted_wrt_nth_less [OF srt this i(1)] j(3) i(2) show ?thesis by simp
      qed
      with full show ?thesis by blast
    qed
  qed
  from 1 2 3 4 5 6 abcSales_top show ?thesis by blast
qed

lemma abcSales_ids: "itemID ` set (soldLines abcSales) = {1, 2, 3}"
  by (auto simp: soldLines_def abcSales_def notVoided_def saleLines_def lineOf_def)

lemma abcSales_revenue:
  "revenueOf 1 (soldLines abcSales) = 50"
  "revenueOf 2 (soldLines abcSales) = 120"
  "revenueOf 3 (soldLines abcSales) = 80"
  by (simp_all add: revenueOf_def linesOf_def soldLines_def abcSales_def notVoided_def
      saleLines_def lineOf_def ratOf_def)

text \<open>Item A is sold and left out: the two entries returned are B and C, both above 50.\<close>

theorem topProducts_ranking_witness:
  "1 \<in> itemID ` set (soldLines abcSales)
   \<and> 1 \<notin> itemId ` set (topProducts abcSales 2)
   \<and> length (topProducts abcSales 2) = 2
   \<and> revenueOf 1 (soldLines abcSales) = 50
   \<and> map (\<lambda>p. revenueOf (itemId p) (soldLines abcSales)) (topProducts abcSales 2) = [120, 80]
   \<and> map itemId (topProducts abcSales 2) = [2, 3]"
proof -
  have a: "1 \<in> itemID ` set (soldLines abcSales)" by (simp add: abcSales_ids)
  have b: "1 \<notin> itemId ` set (topProducts abcSales 2)" by (simp add: abcSales_top)
  from topProducts_ranking [of abcSales 2] a b
  have c: "length (topProducts abcSales 2) = 2" by blast
  have d: "revenueOf 1 (soldLines abcSales) = 50" by (rule abcSales_revenue)
  have e: "map (\<lambda>p. revenueOf (itemId p) (soldLines abcSales)) (topProducts abcSales 2)
      = [120, 80]"
    by (simp add: abcSales_top abcSales_revenue)
  have f: "map itemId (topProducts abcSales 2) = [2, 3]" by (simp add: abcSales_top)
  from a b c d e f show ?thesis by blast
qed

section \<open>Further properties\<close>

text \<open>
  The two aggregations differ on a transaction of non-positive total: the ranking
  counts its lines (revenue 10, one unit), the metrics do not.
\<close>

theorem zero_total_ranked_not_counted:
  "map revenue (topProducts [zeroTotalSale] 10) = [Fin 10]
   \<and> map quantity (topProducts [zeroTotalSale] 10) = [Fin 1]
   \<and> totalRevenue (salesMetrics [zeroTotalSale] ''today'') = Fin 0
   \<and> totalItems (salesMetrics [zeroTotalSale] ''today'') = Fin 0"
  by (simp add: topProducts_def zeroTotalSale_def productStep_def saleLines_def
      addLine_def parseFloat_def objectValues_def jsSort_def lineDescription_def
      salesMetrics_def saleStep_def summarise_def Let_def initialTotals_def byRevenue_def
      js_sub_def)

text \<open>
  The two averages are the sums divided by the number of transactions when there is
  one, and exactly 0 when there is none.
\<close>

theorem averages_guarded:
  "avgSale (summarise t label)
     = (if 0 < totalTransactions t
        then js_div (totalRevenue t) (Fin (of_nat (totalTransactions t))) else Fin 0)
   \<and> avgItems (summarise t label)
     = (if 0 < totalTransactions t
        then js_div (totalItems t) (Fin (of_nat (totalTransactions t))) else Fin 0)
   \<and> avgSale (salesMetrics sales label)
     = (if 0 < totalTransactions (salesMetrics sales label)
        then js_div (totalRevenue (salesMetrics sales label))
               (Fin (of_nat (totalTransactions (salesMetrics sales label))))
        else Fin 0)
   \<and> avgItems (salesMetrics sales label)
     = (if 0 < totalTransactions (salesMetrics sales label)
        then js_div (totalItems (salesMetrics sales label))
               (Fin (of_nat (totalTransactions (salesMetrics sales label))))
        else Fin 0)"
  by (simp add: salesMetrics_def summarise_def Let_def)

section \<open>The client around the aggregations\<close>

text \<open>
  \<open>getSalesMetrics\<close>, \<open>getTopProducts\<close> and \<open>getComparison\<close> either pass on the error
  of the request or return what \<open>salesMetrics\<close>, \<open>topProducts\<close> and \<open>comparisonOf\<close>
  compute from the normalised answer, so the statements above are statements about
  every value they return.
\<close>

lemma getSalesMetrics_body:
  "getSalesMetrics api a b =
     (case querySale api (getDateRange api a b) of
        Inl e \<Rightarrow> Inl e
      | Inr d \<Rightarrow> Inr (salesMetrics (toArray d) (dateStr (getDateRange api a b))))"
  by (simp add: getSalesMetrics_def getSales_def Let_def split: sum.splits)

lemma getTopProducts_body:
  "getTopProducts api a b limit =
     (case querySale api (getDateRange api a b) of
        Inl e \<Rightarrow> Inl e
      | Inr d \<Rightarrow> Inr (topProducts (toArray d) limit))"
  by (simp add: getTopProducts_def getSales_def Let_def split: sum.splits)

lemma bothWindows_body:
  "bothWindows api n = Inr r \<Longrightarrow>
     \<exists>cur lc prv lp. r = comparisonOf (salesMetrics cur lc) (salesMetrics prv lp)"
  by (auto simp: bothWindows_def getSalesMetrics_body compareMetrics_def split: sum.splits)

lemma getComparison_body:
  "getComparison api arg = Inr r \<Longrightarrow>
     \<exists>cur lc prv lp. r = comparisonOf (salesMetrics cur lc) (salesMetrics prv lp)"
  by (auto simp: getComparison_def Let_def compareMetrics_undefined
      dest: bothWindows_body split: if_splits)

end
